theory Spec2Isabelle
  imports Main "HOL-Library.Char_ord" "HOL-Library.List_Lexorder" "HOL-Library.Multiset"
begin

unbundle bit_operations_syntax

section \<open>Python helpers used by gen\_mon\_command\_api.py\<close>

text \<open>
  Strings are byte lists. With \<open>Char_ord\<close> and \<open>List_Lexorder\<close> the order on
  \<^typ>\<open>string\<close> is the lexicographic order on character codes, which is how Python
  compares \<open>str\<close>, and the order on \<^typ>\<open>string list\<close> is the lexicographic order
  Python uses for lists.
\<close>

datatype py_error = AssertionError | KeyError string

text \<open>\<open>sep.join(xs)\<close>.\<close>

fun join :: "string \<Rightarrow> string list \<Rightarrow> string" where
  "join sep [] = []"
| "join sep [x] = x"
| "join sep (x # y # ys) = x @ sep @ join sep (y # ys)"

text \<open>\<open>s.split(c)\<close> for a one-character separator: never empty, keeps empty fields.\<close>

fun split :: "char \<Rightarrow> string \<Rightarrow> string list" where
  "split sep [] = [[]]"
| "split sep (c # cs) =
     (let r = split sep cs in if c = sep then [] # r else (c # hd r) # tl r)"

text \<open>\<open>sub in s\<close> on strings: \<open>sub\<close> occurs in \<open>s\<close> as a contiguous block.\<close>

fun startswith :: "string \<Rightarrow> string \<Rightarrow> bool" where
  "startswith s [] = True"
| "startswith [] (c # cs) = False"
| "startswith (d # ds) (c # cs) = (d = c \<and> startswith ds cs)"

fun str_in :: "string \<Rightarrow> string \<Rightarrow> bool" where
  "str_in sub [] = (sub = [])"
| "str_in sub (c # cs) = (startswith (c # cs) sub \<or> str_in sub cs)"

text \<open>
  \<open>sorted(xs, key=f)\<close> is a stable ascending sort, as \<^const>\<open>sort_key\<close> is.
  \<open>sorted(xs, key=f, reverse=True)\<close> reverses the list, sorts it stably and reverses the
  result, so that equal keys keep their original order.
\<close>

definition sorted_reverse :: "('a \<Rightarrow> 'k::linorder) \<Rightarrow> 'a list \<Rightarrow> 'a list" where
  "sorted_reverse f xs = rev (sort_key f (rev xs))"

text \<open>A list comprehension whose element expression may raise: the first error wins.\<close>

fun collect :: "('a \<Rightarrow> py_error + 'b) \<Rightarrow> 'a list \<Rightarrow> py_error + 'b list" where
  "collect f [] = Inr []"
| "collect f (x # xs) =
     (case f x of
        Inl e \<Rightarrow> Inl e
      | Inr y \<Rightarrow> (case collect f xs of Inl e \<Rightarrow> Inl e | Inr ys \<Rightarrow> Inr (y # ys)))"

section \<open>class Flags\<close>

text \<open>The mask is a Python integer: unbounded, two's complement under \<open>&\<close>.\<close>

definition NOFORWARD :: int where "NOFORWARD = push_bit 0 1"
definition OBSOLETE :: int where "OBSOLETE = push_bit 1 1"
definition DEPRECATED :: int where "DEPRECATED = push_bit 2 1"
definition MGR :: int where "MGR = push_bit 3 1"
definition POLL :: int where "POLL = push_bit 4 1"
definition HIDDEN :: int where "HIDDEN = push_bit 5 1"

text \<open>The dict \<open>Flags.VALS\<close>, in insertion order.\<close>

definition VALS :: "(int \<times> string) list" where
  "VALS =
    [(NOFORWARD, ''no_forward''),
     (OBSOLETE, ''obsolete''),
     (DEPRECATED, ''deprecated''),
     (MGR, ''mgr''),
     (POLL, ''poll''),
     (HIDDEN, ''hidden'')]"

record Flags =
  fs :: int

text \<open>
  \<open>__str__\<close>: the set comprehension \<open>es\<close> holds each name once (\<^const>\<open>remdups\<close>),
  \<open>sorted(es)\<close> orders it, and the names are joined by a comma and a space.
\<close>

definition Flags_es :: "Flags \<Rightarrow> string list" where
  "Flags_es self = remdups [name. (k, name) \<leftarrow> VALS, fs self AND k = k]"

definition Flags_str :: "Flags \<Rightarrow> string" where
  "Flags_str self = join '', '' (sort (Flags_es self))"

text \<open>\<open>__contains__\<close>: substring containment in the rendered text.\<close>

definition Flags_contains :: "Flags \<Rightarrow> string \<Rightarrow> bool" where
  "Flags_contains self other = str_in other (Flags_str self)"

text \<open>\<open>__bool__\<close>: the rendered text is not empty.\<close>

definition Flags_bool :: "Flags \<Rightarrow> bool" where
  "Flags_bool self = (Flags_str self \<noteq> [])"

section \<open>class CmdParam\<close>

text \<open>
  A JSON value as \<open>json.loads\<close> returns it. The constructor compares \<open>who\<close>, \<open>n\<close> and
  \<open>req\<close> with \<open>==\<close> only, so they may hold any value.
\<close>

datatype jval =
    JNull
  | JBool bool
  | JInt int
  | JStr string
  | JArr "jval list"
  | JObj "(string \<times> jval) list"

text \<open>
  A parameter descriptor of the manifest: the keyword arguments of \<open>CmdParam.__init__\<close>.
  \<open>None\<close> is a key that is absent, so that the default of the signature applies.
  \<open>type\<close> and \<open>name\<close> are mandatory strings; \<open>range\<close>, \<open>strings\<close> and \<open>goodchars\<close>
  are strings when present.
\<close>

record descriptor =
  d_type :: string
  d_name :: string
  d_who :: "jval option"
  d_n :: "jval option"
  d_req :: "jval option"
  d_range :: "string option"
  d_strings :: "string option"
  d_goodchars :: "string option"

record CmdParam =
  p_type :: string
  p_name :: string
  p_who :: jval
  p_n :: bool
  p_req :: bool
  p_range :: "string list"
  p_strings :: "string list"
  p_goodchars :: "string option"

text \<open>The dict \<open>CmdParam.bash_example\<close>.\<close>

definition bash_example :: "(string \<times> string) list" where
  "bash_example =
    [(''CephInt'', ''1''),
     (''CephString'', ''string''),
     (''CephChoices'', ''choice''),
     (''CephPgid'', ''0''),
     (''CephOsdName'', ''osd.0''),
     (''CephPoolname'', ''poolname''),
     (''CephObjectname'', ''objectname''),
     (''CephUUID'', ''uuid''),
     (''CephEntityAddr'', ''entityaddr''),
     (''CephIPAddr'', ''0.0.0.0''),
     (''CephName'', ''name''),
     (''CephBool'', ''true''),
     (''CephFloat'', ''0.0''),
     (''CephFilepath'', ''/path/to/file'')]"

text \<open>\<open>CmdParam.bash_example[t]\<close>: a missing key raises \<open>KeyError\<close>.\<close>

definition bash_example_lookup :: "string \<Rightarrow> py_error + string" where
  "bash_example_lookup t =
     (case map_of bash_example t of None \<Rightarrow> Inl (KeyError t) | Some v \<Rightarrow> Inr v)"

text \<open>\<open>x.split('|') if x else []\<close>: \<open>None\<close> and the empty string are falsy.\<close>

definition split_or_empty :: "string option \<Rightarrow> string list" where
  "split_or_empty x =
     (case x of
        None \<Rightarrow> []
      | Some s \<Rightarrow> if s = [] then [] else split (CHR ''|'') s)"

text \<open>
  \<open>__init__\<close>: the defaults are \<open>who=None\<close>, \<open>n=None\<close>, \<open>req=True\<close>; the fields are
  assigned and then \<open>assert who == None\<close> runs.
\<close>

definition CmdParam_init :: "descriptor \<Rightarrow> py_error + CmdParam" where
  "CmdParam_init d =
     (let who = (case d_who d of None \<Rightarrow> JNull | Some v \<Rightarrow> v);
          n = (case d_n d of None \<Rightarrow> JNull | Some v \<Rightarrow> v);
          req = (case d_req d of None \<Rightarrow> JBool True | Some v \<Rightarrow> v);
          self = \<lparr> p_type = d_type d,
                   p_name = d_name d,
                   p_who = who,
                   p_n = (n = JStr ''N''),
                   p_req = (req \<noteq> JStr ''false''),
                   p_range = split_or_empty (d_range d),
                   p_strings = split_or_empty (d_strings d),
                   p_goodchars = d_goodchars d \<rparr>
      in if who = JNull then Inr self else Inl AssertionError)"

text \<open>\<open>mk_example_value\<close>.\<close>

definition mk_example_value :: "CmdParam \<Rightarrow> py_error + string" where
  "mk_example_value self =
     (if p_type self = ''CephChoices'' \<and> p_strings self \<noteq> [] then Inr (hd (p_strings self))
      else if p_range self \<noteq> [] then Inr (hd (p_range self))
      else bash_example_lookup (p_type self))"

text \<open>\<open>mk_bash_example\<close>: \<open>val\<close> is computed first, so its \<open>KeyError\<close> comes first.\<close>

definition mk_bash_example :: "CmdParam \<Rightarrow> bool \<Rightarrow> py_error + string" where
  "mk_bash_example self simple =
     (case mk_example_value self of
        Inl e \<Rightarrow> Inl e
      | Inr val \<Rightarrow>
          if p_type self = ''CephBool'' then Inr (''--'' @ p_name self)
          else if simple then
            (if p_type self = ''CephChoices'' \<and> p_strings self \<noteq> [] then Inr val
             else if p_type self = ''CephString'' \<and> p_name self \<noteq> ''who''
               then Inr (''my_'' @ p_name self)
             else bash_example_lookup (p_type self))
          else Inr (''--'' @ p_name self @ ''='' @ val))"

section \<open>class CmdCommand\<close>

text \<open>An entry of \<open>sig\<close> is a literal token or a parameter descriptor.\<close>

datatype sig_item = SigStr string | SigParam descriptor

text \<open>
  A command record of the manifest: the keyword arguments of \<open>CmdCommand.__init__\<close>;
  an absent \<open>flags\<close> is the default \<open>0\<close>.
\<close>

record entry =
  e_sig :: "sig_item list"
  e_desc :: string
  e_module :: "string option"
  e_perm :: "string option"
  e_flags :: "int option"
  e_poll :: "jval option"

record CmdCommand =
  c_sig :: "string list"
  c_params :: "CmdParam list"
  c_help :: string
  c_module :: "string option"
  c_perm :: "string option"
  c_flags :: Flags
  c_needs_overload :: bool

text \<open>\<open>isinstance(s, str)\<close> on an entry of \<open>sig\<close>.\<close>

fun isinstance_str :: "sig_item \<Rightarrow> bool" where
  "isinstance_str (SigStr s) = True"
| "isinstance_str (SigParam d) = False"

text \<open>\<open>[s for s in sig if isinstance(s, str)]\<close> and its complement.\<close>

fun sig_strs :: "sig_item list \<Rightarrow> string list" where
  "sig_strs [] = []"
| "sig_strs (SigStr s # xs) = s # sig_strs xs"
| "sig_strs (SigParam d # xs) = sig_strs xs"

fun sig_descriptors :: "sig_item list \<Rightarrow> descriptor list" where
  "sig_descriptors [] = []"
| "sig_descriptors (SigStr s # xs) = sig_descriptors xs"
| "sig_descriptors (SigParam d # xs) = d # sig_descriptors xs"

definition CmdCommand_init :: "entry \<Rightarrow> py_error + CmdCommand" where
  "CmdCommand_init e =
     (case collect CmdParam_init (sig_descriptors (e_sig e)) of
        Inl err \<Rightarrow> Inl err
      | Inr ps \<Rightarrow>
          Inr \<lparr> c_sig = sig_strs (e_sig e),
                c_params = sorted_reverse p_req ps,
                c_help = e_desc e,
                c_module = e_module e,
                c_perm = e_perm e,
                c_flags = \<lparr> fs = (case e_flags e of None \<Rightarrow> 0 | Some m \<Rightarrow> m) \<rparr>,
                c_needs_overload = False \<rparr>)"

definition prefix :: "CmdCommand \<Rightarrow> string" where
  "prefix self = join '' '' (c_sig self)"

definition is_reasonably_simple :: "CmdCommand \<Rightarrow> bool" where
  "is_reasonably_simple self =
     (if length (c_params self) > 3 then False
      else if list_ex p_n (c_params self) then False
      else True)"

section \<open>mk\_sigs\<close>

text \<open>
  \<open>mk_sigs\<close> up to the value handed to the template as \<open>commands\<close>: every entry is
  constructed first, the commands with \<open>'hidden'\<close> in their flags are dropped, and the
  rest is sorted on \<open>sig\<close>.
\<close>

definition mk_sigs :: "entry list \<Rightarrow> py_error + CmdCommand list" where
  "mk_sigs all =
     (case collect CmdCommand_init all of
        Inl err \<Rightarrow> Inl err
      | Inr sigs \<Rightarrow>
          Inr (sort_key c_sig
                 (filter (\<lambda>s. \<not> Flags_contains (c_flags s) ''hidden'') sigs)))"

section \<open>The specification's reading of the Flag Set\<close>

text \<open>
  The specification describes the Flag Set as the set of names whose bit is fully
  contained in the mask, with exact membership, and its text as the alphabetical list of
  these names. These definitions follow that wording; the theorems below compare them
  with \<^const>\<open>Flags_str\<close> and \<^const>\<open>Flags_contains\<close>.
\<close>

definition spec_flag_names :: "int \<Rightarrow> string set" where
  "spec_flag_names m = snd ` {kn \<in> set VALS. m AND fst kn = fst kn}"

definition spec_flag_member :: "int \<Rightarrow> string \<Rightarrow> bool" where
  "spec_flag_member m name = (name \<in> spec_flag_names m)"

definition flag_names_sorted :: "string list" where
  "flag_names_sorted =
     [''deprecated'', ''hidden'', ''mgr'', ''no_forward'', ''obsolete'', ''poll'']"

section \<open>Example inputs\<close>

text \<open>The parameter \<open>{type: "CephChoices", name: "format", strings: "json|plain"}\<close>.\<close>

definition ex_format :: descriptor where
  "ex_format =
     \<lparr> d_type = ''CephChoices'', d_name = ''format'', d_who = None, d_n = None,
       d_req = None, d_range = None, d_strings = Some ''json|plain'', d_goodchars = None \<rparr>"

text \<open>An optional, repeatable integer with a range, and a parameter that carries \<open>who\<close>.\<close>

definition ex_count :: descriptor where
  "ex_count =
     \<lparr> d_type = ''CephInt'', d_name = ''count'', d_who = None, d_n = Some (JStr ''N''),
       d_req = Some (JStr ''false''), d_range = Some ''0|10'', d_strings = None,
       d_goodchars = None \<rparr>"

definition ex_who :: descriptor where
  "ex_who = ex_format \<lparr> d_who := Some (JStr ''osd'') \<rparr>"

definition ex_force :: descriptor where
  "ex_force =
     \<lparr> d_type = ''CephBool'', d_name = ''force'', d_who = None, d_n = None,
       d_req = None, d_range = None, d_strings = None, d_goodchars = None \<rparr>"

text \<open>Three manifest entries: a hidden and deprecated one, and two visible ones.\<close>

definition ex_entry :: "sig_item list \<Rightarrow> int option \<Rightarrow> entry" where
  "ex_entry sg fl =
     \<lparr> e_sig = sg, e_desc = ''help'', e_module = Some ''mon'', e_perm = Some ''rw'',
       e_flags = fl, e_poll = None \<rparr>"

definition ex_hidden :: entry where
  "ex_hidden = ex_entry [SigStr ''a'', SigStr ''secret''] (Some (HIDDEN OR DEPRECATED))"

definition ex_osd :: entry where
  "ex_osd =
     ex_entry [SigStr ''osd'', SigParam ex_count, SigStr ''ls'', SigParam ex_format]
       (Some DEPRECATED)"

definition ex_mon :: entry where
  "ex_mon = ex_entry [SigStr ''mon'', SigStr ''compact''] None"

section \<open>Facts about the helpers\<close>

text \<open>
  The order used by \<open>sorted\<close>: token lists compare lexicographically, a proper prefix
  first, and tokens compare the same way on their character codes.
\<close>

lemma sig_order_lexicographic:
  fixes x y :: string and xs ys :: "string list" and c d :: char
  shows "[] \<le> ys" and "\<not> x # xs \<le> []"
    and "(x # xs \<le> y # ys) = (x < y \<or> x = y \<and> xs \<le> ys)"
    and "(c \<le> d) = (of_char c \<le> (of_char d :: nat))"
  by (auto simp: less_eq_char_def)

lemma split_not_Nil: "split sep s \<noteq> []"
  by (induction s) (auto simp: Let_def)

lemma hd_split: "hd (split sep s) = takeWhile (\<lambda>c. c \<noteq> sep) s"
  by (induction s) (auto simp: Let_def)

lemma join_split: "join [sep] (split sep s) = s"
proof (induction s)
  case Nil
  show ?case by simp
next
  case (Cons c cs)
  obtain w ws where r: "split sep cs = w # ws"
    using split_not_Nil [of sep cs] by (cases "split sep cs") auto
  show ?case
  proof (cases "c = sep")
    case True
    with Cons r show ?thesis by simp
  next
    case False
    with Cons r show ?thesis by (cases ws) (auto simp: Let_def)
  qed
qed

lemma split_no_sep: "w \<in> set (split sep s) \<Longrightarrow> sep \<notin> set w"
proof (induction s arbitrary: w)
  case Nil
  then show ?case by simp
next
  case (Cons c cs)
  obtain v vs where r: "split sep cs = v # vs"
    using split_not_Nil [of sep cs] by (cases "split sep cs") auto
  have "sep \<notin> set v" and "\<forall>u \<in> set vs. sep \<notin> set u"
    using Cons.IH r by auto
  with Cons.prems r show ?case
    by (auto simp: Let_def split: if_splits)
qed

lemma startswith_iff: "startswith s sub = (\<exists>ss. s = sub @ ss)"
  by (induction s sub rule: startswith.induct) auto

lemma str_in_iff: "str_in sub s = (\<exists>ps ss. s = ps @ sub @ ss)"
proof (induction s)
  case Nil
  show ?case by auto
next
  case (Cons c cs)
  show ?case
  proof
    assume "str_in sub (c # cs)"
    then consider "startswith (c # cs) sub" | "str_in sub cs" by auto
    then show "\<exists>ps ss. c # cs = ps @ sub @ ss"
    proof cases
      case 1
      then obtain ss where "c # cs = sub @ ss" by (auto simp: startswith_iff)
      then have "c # cs = [] @ sub @ ss" by simp
      then show ?thesis by blast
    next
      case 2
      then obtain ps ss where "cs = ps @ sub @ ss" using Cons.IH by auto
      then have "c # cs = (c # ps) @ sub @ ss" by simp
      then show ?thesis by blast
    qed
  next
    assume "\<exists>ps ss. c # cs = ps @ sub @ ss"
    then obtain ps ss where e: "c # cs = ps @ sub @ ss" by auto
    show "str_in sub (c # cs)"
    proof (cases ps)
      case Nil
      with e have "startswith (c # cs) sub" by (auto simp: startswith_iff)
      then show ?thesis by simp
    next
      case (Cons q qs)
      with e have "cs = qs @ sub @ ss" by simp
      then have "str_in sub cs" using Cons.IH by blast
      then show ?thesis by simp
    qed
  qed
qed





lemma map_sort_key_sort:
  fixes f :: "'a \<Rightarrow> 'k::linorder"
  shows "map f (sort_key f xs) = sort (map f xs)"
  by (rule properties_for_sort [symmetric]) simp_all

lemma collect_Inr_iff: "collect f xs = Inr ys \<longleftrightarrow> list_all2 (\<lambda>x y. f x = Inr y) xs ys"
proof (induction xs arbitrary: ys)
  case Nil
  show ?case by auto
next
  case (Cons x xs)
  show ?case
  proof (cases "f x")
    case (Inl e)
    then show ?thesis by (auto simp: list_all2_Cons1)
  next
    case (Inr y)
    note fx = this
    show ?thesis
    proof (cases "collect f xs")
      case (Inl e)
      then have "\<not> list_all2 (\<lambda>x y. f x = Inr y) xs zs" for zs
        using Cons.IH [of zs] by simp
      with fx Inl show ?thesis by (auto simp: list_all2_Cons1)
    next
      case (Inr zs)
      then have "list_all2 (\<lambda>x y. f x = Inr y) xs ws \<longleftrightarrow> ws = zs" for ws
        using Cons.IH [of ws] by auto
      with fx Inr show ?thesis by (auto simp: list_all2_Cons1)
    qed
  qed
qed

section \<open>Facts about the Flag Set\<close>

lemmas bit_defs = NOFORWARD_def OBSOLETE_def DEPRECATED_def MGR_def POLL_def HIDDEN_def

lemma sort_names: "sort (map snd VALS) = flag_names_sorted"
  by (simp add: VALS_def flag_names_sorted_def)

lemma spec_flag_member_iff:
  "spec_flag_member m name = list_ex (\<lambda>(k, n). n = name \<and> m AND k = k) VALS"
  by (auto simp: spec_flag_member_def spec_flag_names_def list_ex_iff image_iff)

lemma names_in_spec_flag_names:
  "(name \<in> spec_flag_names m) = list_ex (\<lambda>(k, n). n = name \<and> m AND k = k) VALS"
  using spec_flag_member_iff [of m name] by (simp add: spec_flag_member_def)

lemma spec_flag_member_ex:
  "spec_flag_member m name = (\<exists>k. (k, name) \<in> set VALS \<and> m AND k = k)"
  by (force simp: spec_flag_member_def spec_flag_names_def image_iff)

lemma es_filter:
  "[name. (k, name) \<leftarrow> VALS, m AND k = k] = filter (spec_flag_member m) (map snd VALS)"
  by (simp add: VALS_def spec_flag_member_iff bit_defs)

lemma sort_es: "sort (Flags_es f) = filter (spec_flag_member (fs f)) flag_names_sorted"
proof -
  have d: "distinct (map snd VALS)" by (simp add: VALS_def)
  have "Flags_es f = filter (spec_flag_member (fs f)) (map snd VALS)"
    unfolding Flags_es_def es_filter using d by (simp add: distinct_remdups_id)
  then show ?thesis by (simp add: sort_names[symmetric] filter_sort)
qed

lemma Flags_str_filter:
  "Flags_str f = join '', '' (filter (spec_flag_member (fs f)) flag_names_sorted)"
  by (simp add: Flags_str_def sort_es)

text \<open>
  Whatever subset of the six names is rendered, each name occurs in the text exactly when
  it is in the subset: no name is part of another name or of two names and the separator
  between them.
\<close>

lemma str_in_join_filter:
  assumes "name \<in> set flag_names_sorted"
  shows "str_in name (join '', '' (filter P flag_names_sorted)) = P name"
proof -
  have "\<forall>n \<in> set flag_names_sorted. str_in n (join '', '' (filter P flag_names_sorted)) = P n"
    unfolding flag_names_sorted_def
    by (cases "P ''deprecated''"; cases "P ''hidden''"; cases "P ''mgr''";
        cases "P ''no_forward''"; cases "P ''obsolete''"; cases "P ''poll''"; simp)
  with assms show ?thesis by blast
qed

lemma Flags_contains_exact:
  "name \<in> set flag_names_sorted \<Longrightarrow> Flags_contains f name = spec_flag_member (fs f) name"
  by (simp add: Flags_contains_def Flags_str_filter str_in_join_filter)

lemma spec_flag_member_hidden: "spec_flag_member m ''hidden'' = (m AND HIDDEN = HIDDEN)"
  by (simp add: spec_flag_member_iff VALS_def)

lemma Flags_contains_hidden: "Flags_contains f ''hidden'' = (fs f AND HIDDEN = HIDDEN)"
  by (simp add: Flags_contains_exact flag_names_sorted_def spec_flag_member_hidden)

lemma and_or_absorb_int: "(a OR x) AND a = (a::int)" "(x OR a) AND a = (a::int)"
  by (auto simp: bit_eq_iff bit_and_iff bit_or_iff)

lemma Flags_es_mask:
  assumes "fs g AND 63 = fs f AND 63"
  shows "Flags_es g = Flags_es f"
proof -
  have low: "x AND k = (x AND 63) AND k" if "63 AND k = k" for x k :: int
    using that by (simp add: and.assoc)
  have "(fs g AND k = k) = (fs f AND k = k)" if "63 AND k = k" for k
    using low [OF that, of "fs g"] low [OF that, of "fs f"] assms by simp
  then show ?thesis by (simp add: Flags_es_def VALS_def bit_defs)
qed

lemma set_flag_names_sorted: "set flag_names_sorted = snd ` set VALS"
  by (auto simp: flag_names_sorted_def VALS_def)

lemma sorted_flag_names_sorted: "sorted flag_names_sorted" "distinct flag_names_sorted"
  by (simp_all add: flag_names_sorted_def)

lemma spec_flag_names_subset: "spec_flag_names m \<subseteq> snd ` set VALS"
  by (auto simp: spec_flag_names_def)

section \<open>Facts about parameters and commands\<close>

lemmas ex_defs = ex_format_def ex_count_def ex_who_def ex_force_def ex_entry_def
  ex_hidden_def ex_osd_def ex_mon_def

lemmas init_defs = CmdCommand_init_def CmdParam_init_def split_or_empty_def
  sorted_reverse_def

lemma CmdParam_init_Inr:
  "CmdParam_init d = Inr p \<Longrightarrow>
     p_type p = d_type d \<and> p_name p = d_name d
     \<and> p_n p = (d_n d = Some (JStr ''N''))
     \<and> p_req p = (d_req d \<noteq> Some (JStr ''false''))
     \<and> p_range p = split_or_empty (d_range d)
     \<and> p_strings p = split_or_empty (d_strings d)"
  by (auto simp: CmdParam_init_def Let_def split: if_splits option.splits)

lemma hd_conv_nth0: "xs \<noteq> [] \<Longrightarrow> hd xs = xs ! 0"
  by (simp add: hd_conv_nth)

lemma split_or_empty_first:
  "split_or_empty x \<noteq> [] \<longleftrightarrow> (\<exists>s. x = Some s \<and> s \<noteq> [])"
  "x = Some s \<Longrightarrow> s \<noteq> [] \<Longrightarrow> split_or_empty x ! 0 = takeWhile (\<lambda>c. c \<noteq> CHR ''|'') s"
  by (auto simp: split_or_empty_def split_not_Nil hd_split [symmetric] hd_conv_nth
      split: option.splits)

lemma bash_example_lookup_table:
  "bash_example_lookup ''CephInt'' = Inr ''1''"
  "bash_example_lookup ''CephString'' = Inr ''string''"
  "bash_example_lookup ''CephChoices'' = Inr ''choice''"
  "bash_example_lookup ''CephPgid'' = Inr ''0''"
  "bash_example_lookup ''CephOsdName'' = Inr ''osd.0''"
  "bash_example_lookup ''CephPoolname'' = Inr ''poolname''"
  "bash_example_lookup ''CephObjectname'' = Inr ''objectname''"
  "bash_example_lookup ''CephUUID'' = Inr ''uuid''"
  "bash_example_lookup ''CephEntityAddr'' = Inr ''entityaddr''"
  "bash_example_lookup ''CephIPAddr'' = Inr ''0.0.0.0''"
  "bash_example_lookup ''CephName'' = Inr ''name''"
  "bash_example_lookup ''CephBool'' = Inr ''true''"
  "bash_example_lookup ''CephFloat'' = Inr ''0.0''"
  "bash_example_lookup ''CephFilepath'' = Inr ''/path/to/file''"
  by (simp_all add: bash_example_lookup_def bash_example_def)

lemma bash_example_lookup_unknown:
  "t \<notin> fst ` set bash_example \<Longrightarrow> bash_example_lookup t = Inl (KeyError t)"
proof -
  assume "t \<notin> fst ` set bash_example"
  then have "map_of bash_example t = None" by (simp add: map_of_eq_None_iff)
  then show ?thesis by (simp add: bash_example_lookup_def)
qed

lemma mk_example_value_lookup_error:
  "mk_example_value p = Inl e \<Longrightarrow> bash_example_lookup (p_type p) = Inl e"
  by (auto simp: mk_example_value_def split: if_splits)

lemma mk_example_value_known:
  "p_type p \<in> fst ` set bash_example \<Longrightarrow> \<exists>v. mk_example_value p = Inr v"
proof -
  assume "p_type p \<in> fst ` set bash_example"
  then obtain v where "map_of bash_example (p_type p) = Some v"
    using map_of_eq_None_iff [of bash_example "p_type p"] by auto
  then show ?thesis by (simp add: mk_example_value_def bash_example_lookup_def)
qed

lemma sig_strs_literal: "map SigStr (sig_strs xs) = filter isinstance_str xs"
  by (induction xs rule: sig_strs.induct) auto

lemma CmdCommand_init_sig:
  "CmdCommand_init e = Inr c \<Longrightarrow> c_sig c = sig_strs (e_sig e)"
  by (auto simp: CmdCommand_init_def split: sum.splits)

lemma mk_sigs_Inr:
  assumes "mk_sigs all = Inr out"
  obtains sigs where "collect CmdCommand_init all = Inr sigs"
    and "out = sort_key c_sig (filter (\<lambda>s. \<not> Flags_contains (c_flags s) ''hidden'') sigs)"
  using assms by (auto simp: mk_sigs_def split: sum.splits)

lemma CmdCommand_init_flags:
  "CmdCommand_init e = Inr c \<Longrightarrow> e_flags e = Some m \<Longrightarrow> fs (c_flags c) = m"
  by (auto simp: CmdCommand_init_def split: sum.splits)

text \<open>The example inputs, evaluated.\<close>

lemma ex_params:
  "CmdParam_init ex_format =
     Inr \<lparr> p_type = ''CephChoices'', p_name = ''format'', p_who = JNull, p_n = False,
           p_req = True, p_range = [], p_strings = [''json'', ''plain''],
           p_goodchars = None \<rparr>"
  "CmdParam_init ex_count =
     Inr \<lparr> p_type = ''CephInt'', p_name = ''count'', p_who = JNull, p_n = True,
           p_req = False, p_range = [''0'', ''10''], p_strings = [],
           p_goodchars = None \<rparr>"
  "CmdParam_init ex_force =
     Inr \<lparr> p_type = ''CephBool'', p_name = ''force'', p_who = JNull, p_n = False,
           p_req = True, p_range = [], p_strings = [],
           p_goodchars = None \<rparr>"
  "CmdParam_init ex_who = Inl AssertionError"
  by (simp_all add: init_defs ex_defs)

lemma ex_hidden_init:
  "\<exists>c. CmdCommand_init ex_hidden = Inr c \<and> c_sig c = [''a'', ''secret'']"
  by (simp add: init_defs ex_defs)

lemma ex_osd_init:
  "\<exists>c. CmdCommand_init ex_osd = Inr c \<and> map p_name (c_params c) = [''format'', ''count'']
     \<and> map p_n (c_params c) = [False, True] \<and> map p_req (c_params c) = [True, False]"
  by (simp add: init_defs ex_defs)

lemma ex_mon_init:
  "\<exists>c. CmdCommand_init ex_mon = Inr c \<and> c_params c = []"
  by (simp add: init_defs ex_defs)

lemma ex_tokens:
  "map (\<lambda>e. sig_strs (e_sig e)) [ex_hidden, ex_osd, ex_mon] =
     [[''a'', ''secret''], [''osd'', ''ls''], [''mon'', ''compact'']]"
  by (simp add: ex_defs)

lemma ex_mk_sigs:
  "\<exists>out. mk_sigs [ex_hidden, ex_osd, ex_mon] = Inr out
     \<and> map c_sig out = [[''mon'', ''compact''], [''osd'', ''ls'']]"
  by (simp add: mk_sigs_def init_defs ex_defs Flags_contains_hidden bit_defs)

section \<open>Properties of the specification\<close>

text \<open>
  C1. When \<open>mk_sigs\<close> reaches the renderer, no command of the sequence it hands over has
  \<open>'hidden'\<close> in its flags, and none has the hidden bit set in its mask. Every entry of
  the manifest whose mask contains the hidden bit, alone or OR-ed with any other bits,
  builds a command that reports \<open>'hidden'\<close> and is absent from that sequence, whatever
  its other fields are.
\<close>

theorem mk_sigs_discards_hidden:
  assumes "mk_sigs all = Inr out"
  shows "(\<forall>c \<in> set out. \<not> Flags_contains (c_flags c) ''hidden''
            \<and> fs (c_flags c) AND HIDDEN \<noteq> HIDDEN)
       \<and> (\<forall>e \<in> set all. \<forall>c m. CmdCommand_init e = Inr c \<and> e_flags e = Some m
            \<and> m AND HIDDEN = HIDDEN \<longrightarrow> Flags_contains (c_flags c) ''hidden'' \<and> c \<notin> set out)
       \<and> (\<forall>e \<in> set all. \<forall>c x. CmdCommand_init e = Inr c \<and> e_flags e = Some (HIDDEN OR x)
            \<longrightarrow> Flags_contains (c_flags c) ''hidden'' \<and> c \<notin> set out)"
proof -
  obtain sigs where
    out: "out = sort_key c_sig (filter (\<lambda>s. \<not> Flags_contains (c_flags s) ''hidden'') sigs)"
    using assms by (rule mk_sigs_Inr)
  have kept: "\<not> Flags_contains (c_flags c) ''hidden''" if "c \<in> set out" for c
    using that by (simp add: out)
  have gone: "Flags_contains (c_flags c) ''hidden'' \<and> c \<notin> set out"
    if "CmdCommand_init e = Inr c" "e_flags e = Some m" "m AND HIDDEN = HIDDEN" for e c m
  proof -
    have "fs (c_flags c) = m" using that by (simp add: CmdCommand_init_flags)
    then have "Flags_contains (c_flags c) ''hidden''"
      using that by (simp add: Flags_contains_hidden)
    then show ?thesis using kept by blast
  qed
  have "\<forall>c \<in> set out. \<not> Flags_contains (c_flags c) ''hidden''
          \<and> fs (c_flags c) AND HIDDEN \<noteq> HIDDEN"
    using kept by (simp add: Flags_contains_hidden)
  moreover have "\<forall>e \<in> set all. \<forall>c m. CmdCommand_init e = Inr c \<and> e_flags e = Some m
      \<and> m AND HIDDEN = HIDDEN \<longrightarrow> Flags_contains (c_flags c) ''hidden'' \<and> c \<notin> set out"
    using gone by blast
  moreover have "\<forall>e \<in> set all. \<forall>c x. CmdCommand_init e = Inr c
      \<and> e_flags e = Some (HIDDEN OR x) \<longrightarrow> Flags_contains (c_flags c) ''hidden'' \<and> c \<notin> set out"
    using gone and_or_absorb_int(1) by blast
  ultimately show ?thesis by blast
qed

text \<open>
  The manifest \<open>[ex_hidden, ex_osd, ex_mon]\<close>: the entry whose mask is the hidden bit
  OR-ed with the deprecated bit is dropped, the other two remain.
\<close>

theorem mk_sigs_discards_hidden_witness:
  "\<exists>out c. mk_sigs [ex_hidden, ex_osd, ex_mon] = Inr out
     \<and> CmdCommand_init ex_hidden = Inr c
     \<and> e_flags ex_hidden = Some (HIDDEN OR DEPRECATED)
     \<and> Flags_contains (c_flags c) ''hidden'' \<and> c \<notin> set out
     \<and> map c_sig out = [[''mon'', ''compact''], [''osd'', ''ls'']]"
proof -
  obtain out where o: "mk_sigs [ex_hidden, ex_osd, ex_mon] = Inr out"
    and s: "map c_sig out = [[''mon'', ''compact''], [''osd'', ''ls'']]"
    using ex_mk_sigs by (elim exE conjE)
  obtain c where c: "CmdCommand_init ex_hidden = Inr c"
    using ex_hidden_init by (elim exE conjE)
  have f: "e_flags ex_hidden = Some (HIDDEN OR DEPRECATED)"
    by (simp add: ex_defs)
  have "Flags_contains (c_flags c) ''hidden'' \<and> c \<notin> set out"
    using mk_sigs_discards_hidden [OF o] c f by (simp add: and_or_absorb_int)
  with o s c f show ?thesis by auto
qed



text \<open>
  C3. \<open>mk_example_value\<close> returns the first allowed value when the type is
  \<open>CephChoices\<close> and there are allowed values; otherwise the first entry of the range
  when there is a range; otherwise the entry of the table \<open>bash_example\<close> for the type,
  which is \<open>1\<close> for \<open>CephInt\<close>, \<open>0.0.0.0\<close> for \<open>CephIPAddr\<close> and \<open>true\<close> for
  \<open>CephBool\<close>, and exists exactly for the types of the table.
\<close>

theorem mk_example_value_contract:
  "(p_type p = ''CephChoices'' \<and> p_strings p \<noteq> [] \<longrightarrow>
      mk_example_value p = Inr (p_strings p ! 0))
   \<and> (\<not> (p_type p = ''CephChoices'' \<and> p_strings p \<noteq> []) \<and> p_range p \<noteq> [] \<longrightarrow>
      mk_example_value p = Inr (p_range p ! 0))
   \<and> (\<not> (p_type p = ''CephChoices'' \<and> p_strings p \<noteq> []) \<and> p_range p = [] \<longrightarrow>
      mk_example_value p = bash_example_lookup (p_type p))
   \<and> bash_example_lookup ''CephInt'' = Inr ''1''
   \<and> bash_example_lookup ''CephIPAddr'' = Inr ''0.0.0.0''
   \<and> bash_example_lookup ''CephBool'' = Inr ''true''
   \<and> (\<forall>t. (\<exists>v. bash_example_lookup t = Inr v) = (t \<in> fst ` set bash_example))"
proof -
  have "(\<exists>v. bash_example_lookup t = Inr v) = (t \<in> fst ` set bash_example)" for t
  proof (cases "map_of bash_example t")
    case None
    then have "t \<notin> fst ` set bash_example" by (simp add: map_of_eq_None_iff)
    with None show ?thesis by (simp add: bash_example_lookup_def)
  next
    case (Some v)
    then have "t \<in> fst ` set bash_example"
      using map_of_eq_None_iff [of bash_example t] by auto
    with Some show ?thesis by (simp add: bash_example_lookup_def)
  qed
  then show ?thesis
    by (simp add: mk_example_value_def hd_conv_nth0 bash_example_lookup_table)
qed

text \<open>One parameter for each of the three branches.\<close>

theorem mk_example_value_contract_witness:
  "(\<exists>p. CmdParam_init ex_format = Inr p \<and> mk_example_value p = Inr ''json'')
   \<and> (\<exists>p. CmdParam_init ex_count = Inr p \<and> mk_example_value p = Inr ''0'')
   \<and> (\<exists>p. CmdParam_init ex_force = Inr p \<and> mk_example_value p = Inr ''true'')"
  using mk_example_value_contract [of "\<lparr> p_type = ''CephChoices'', p_name = ''format'',
      p_who = JNull, p_n = False, p_req = True, p_range = [],
      p_strings = [''json'', ''plain''], p_goodchars = None \<rparr>"]
    mk_example_value_contract [of "\<lparr> p_type = ''CephInt'', p_name = ''count'', p_who = JNull,
      p_n = True, p_req = False, p_range = [''0'', ''10''], p_strings = [],
      p_goodchars = None \<rparr>"]
    mk_example_value_contract [of "\<lparr> p_type = ''CephBool'', p_name = ''force'', p_who = JNull,
      p_n = False, p_req = True, p_range = [], p_strings = [], p_goodchars = None \<rparr>"]
  by (simp add: ex_params)

text \<open>
  C4. \<open>mk_bash_example\<close> returns \<open>--name\<close> for a \<open>CephBool\<close>, whatever \<open>simple\<close> is.
  Otherwise, when \<open>simple\<close> holds, it returns the first allowed value of a \<open>CephChoices\<close>
  with allowed values, \<open>my_name\<close> for a \<open>CephString\<close> whose name is not \<open>who\<close>, and
  the table entry of the type in every other case; when \<open>simple\<close> does not hold, it
  returns \<open>--name=\<close> followed by the example value. The parameter
  \<open>{type: "CephChoices", name: "format", strings: "json|plain"}\<close> yields \<open>json\<close> and
  \<open>--format=json\<close>.
\<close>

theorem mk_bash_example_contract:
  "(p_type p = ''CephBool'' \<longrightarrow> mk_bash_example p simple = Inr (''--'' @ p_name p))
   \<and> (simple \<and> p_type p = ''CephChoices'' \<and> p_strings p \<noteq> [] \<longrightarrow>
        mk_bash_example p simple = Inr (p_strings p ! 0))
   \<and> (simple \<and> p_type p = ''CephString'' \<and> p_name p \<noteq> ''who'' \<longrightarrow>
        mk_bash_example p simple = Inr (''my_'' @ p_name p))
   \<and> (simple \<and> p_type p \<noteq> ''CephBool''
        \<and> \<not> (p_type p = ''CephChoices'' \<and> p_strings p \<noteq> [])
        \<and> \<not> (p_type p = ''CephString'' \<and> p_name p \<noteq> ''who'') \<longrightarrow>
        mk_bash_example p simple = bash_example_lookup (p_type p))
   \<and> (\<not> simple \<and> p_type p \<noteq> ''CephBool'' \<longrightarrow>
        mk_bash_example p simple =
          (case mk_example_value p of
             Inl e \<Rightarrow> Inl e
           | Inr val \<Rightarrow> Inr (''--'' @ p_name p @ ''='' @ val)))
   \<and> (\<exists>q. CmdParam_init ex_format = Inr q
        \<and> mk_bash_example q True = Inr ''json''
        \<and> mk_bash_example q False = Inr ''--format=json'')"
proof -
  have bool: "mk_bash_example p simple = Inr (''--'' @ p_name p)" if "p_type p = ''CephBool''"
  proof -
    have "p_type p \<in> fst ` set bash_example" using that by (simp add: bash_example_def)
    then obtain v where "mk_example_value p = Inr v" using mk_example_value_known by blast
    then show ?thesis using that by (simp add: mk_bash_example_def)
  qed
  have choice: "mk_bash_example p simple = Inr (p_strings p ! 0)"
    if "simple" "p_type p = ''CephChoices''" "p_strings p \<noteq> []"
    using that by (simp add: mk_bash_example_def mk_example_value_def hd_conv_nth0)
  have str: "mk_bash_example p simple = Inr (''my_'' @ p_name p)"
    if "simple" "p_type p = ''CephString''" "p_name p \<noteq> ''who''"
  proof -
    have "p_type p \<in> fst ` set bash_example" using that by (simp add: bash_example_def)
    then obtain v where "mk_example_value p = Inr v" using mk_example_value_known by blast
    then show ?thesis using that by (simp add: mk_bash_example_def)
  qed
  have other: "mk_bash_example p simple = bash_example_lookup (p_type p)"
    if "simple" "p_type p \<noteq> ''CephBool''"
      "\<not> (p_type p = ''CephChoices'' \<and> p_strings p \<noteq> [])"
      "\<not> (p_type p = ''CephString'' \<and> p_name p \<noteq> ''who'')"
  proof (cases "mk_example_value p")
    case (Inl e)
    then show ?thesis
      using mk_example_value_lookup_error [OF Inl] by (simp add: mk_bash_example_def)
  next
    case (Inr v)
    then show ?thesis using that by (auto simp: mk_bash_example_def)
  qed
  have long: "mk_bash_example p simple =
      (case mk_example_value p of Inl e \<Rightarrow> Inl e
       | Inr val \<Rightarrow> Inr (''--'' @ p_name p @ ''='' @ val))"
    if "\<not> simple" "p_type p \<noteq> ''CephBool''"
    using that by (simp add: mk_bash_example_def split: sum.splits)
  have scen: "\<exists>q. CmdParam_init ex_format = Inr q
        \<and> mk_bash_example q True = Inr ''json''
        \<and> mk_bash_example q False = Inr ''--format=json''"
    by (simp add: ex_params mk_bash_example_def mk_example_value_def)
  show ?thesis
    using bool choice str other long scen by simp
qed

text \<open>A boolean and a ranged integer, in both modes.\<close>

theorem mk_bash_example_contract_witness:
  "(\<exists>p. CmdParam_init ex_force = Inr p \<and> mk_bash_example p True = Inr ''--force''
        \<and> mk_bash_example p False = Inr ''--force'')
   \<and> (\<exists>p. CmdParam_init ex_count = Inr p \<and> mk_bash_example p True = Inr ''1''
        \<and> mk_bash_example p False = Inr ''--count=0'')"
  using mk_bash_example_contract [of "\<lparr> p_type = ''CephBool'', p_name = ''force'',
      p_who = JNull, p_n = False, p_req = True, p_range = [], p_strings = [],
      p_goodchars = None \<rparr>" True]
    mk_bash_example_contract [of "\<lparr> p_type = ''CephBool'', p_name = ''force'',
      p_who = JNull, p_n = False, p_req = True, p_range = [], p_strings = [],
      p_goodchars = None \<rparr>" False]
    mk_bash_example_contract [of "\<lparr> p_type = ''CephInt'', p_name = ''count'', p_who = JNull,
      p_n = True, p_req = False, p_range = [''0'', ''10''], p_strings = [],
      p_goodchars = None \<rparr>" True]
    mk_bash_example_contract [of "\<lparr> p_type = ''CephInt'', p_name = ''count'', p_who = JNull,
      p_n = True, p_req = False, p_range = [''0'', ''10''], p_strings = [],
      p_goodchars = None \<rparr>" False]
  by (simp add: ex_params mk_example_value_def bash_example_lookup_table)

text \<open>
  C5. \<open>is_reasonably_simple\<close> is true exactly when there are at most three parameters and
  none is repeatable; it is false exactly when there are more than three parameters or
  some parameter is repeatable.
\<close>

theorem is_reasonably_simple_iff:
  "is_reasonably_simple c = (length (c_params c) \<le> 3 \<and> (\<forall>p \<in> set (c_params c). \<not> p_n p))
   \<and> (\<not> is_reasonably_simple c) = (length (c_params c) > 3 \<or> (\<exists>p \<in> set (c_params c). p_n p))"
  by (auto simp: is_reasonably_simple_def list_ex_iff)

text \<open>\<open>ex_osd\<close> has a repeatable parameter, \<open>ex_mon\<close> has no parameter.\<close>

theorem is_reasonably_simple_iff_witness:
  "\<exists>c c'. CmdCommand_init ex_osd = Inr c \<and> \<not> is_reasonably_simple c
     \<and> CmdCommand_init ex_mon = Inr c' \<and> is_reasonably_simple c'"
proof -
  obtain c where c: "CmdCommand_init ex_osd = Inr c"
    and n: "map p_n (c_params c) = [False, True]"
    using ex_osd_init by (elim exE conjE)
  obtain c' where c': "CmdCommand_init ex_mon = Inr c'" and e: "c_params c' = []"
    using ex_mon_init by (elim exE conjE)
  have "True \<in> set (map p_n (c_params c))" by (simp add: n)
  then have "\<exists>p \<in> set (c_params c). p_n p" by auto
  then have "\<not> is_reasonably_simple c" using is_reasonably_simple_iff [of c] by simp
  moreover have "is_reasonably_simple c'" using is_reasonably_simple_iff [of c'] e by simp
  ultimately show ?thesis using c c' by auto
qed

text \<open>
  C6. For every mask, the text of the Flag Set is the alphabetical list of the six names
  restricted to the names whose bit is contained in the mask, joined by a comma and a
  space: a sorted list without repetition of exactly these names. Bits outside the six
  known ones do not change the text, and every mask has a text.
\<close>

theorem Flags_str_sorted_names:
  "Flags_str f =
     join '', '' (filter (\<lambda>name. name \<in> spec_flag_names (fs f)) flag_names_sorted)
   \<and> sorted flag_names_sorted \<and> distinct flag_names_sorted
   \<and> set flag_names_sorted = snd ` set VALS
   \<and> (\<exists>ns. Flags_str f = join '', '' ns \<and> sorted ns \<and> distinct ns
         \<and> set ns = spec_flag_names (fs f))
   \<and> (\<forall>m. m AND 63 = fs f AND 63 \<longrightarrow> Flags_str \<lparr>fs = m\<rparr> = Flags_str f)"
proof -
  let ?ns = "filter (\<lambda>name. name \<in> spec_flag_names (fs f)) flag_names_sorted"
  have eq: "Flags_str f = join '', '' ?ns"
    using Flags_str_filter [of f] by (simp add: spec_flag_member_def [abs_def])
  have "sorted ?ns" "distinct ?ns"
    using sorted_flag_names_sorted by (simp_all add: sorted_wrt_filter)
  moreover have "set ?ns = spec_flag_names (fs f)"
    using spec_flag_names_subset [of "fs f"] by (auto simp: set_flag_names_sorted)
  ultimately have ex: "\<exists>ns. Flags_str f = join '', '' ns \<and> sorted ns \<and> distinct ns
      \<and> set ns = spec_flag_names (fs f)"
    using eq by auto
  have low: "Flags_str \<lparr>fs = m\<rparr> = Flags_str f" if "m AND 63 = fs f AND 63" for m
  proof -
    have "Flags_es \<lparr>fs = m\<rparr> = Flags_es f"
      using that by (intro Flags_es_mask) simp
    then show ?thesis by (simp add: Flags_str_def)
  qed
  show ?thesis
    using eq ex low sorted_flag_names_sorted set_flag_names_sorted by simp
qed

text \<open>The mask 100 carries the unknown bit 64 besides the hidden and deprecated bits.\<close>

theorem Flags_str_sorted_names_witness:
  "Flags_str \<lparr>fs = 100\<rparr> = ''deprecated, hidden''
   \<and> 100 AND 63 = (36 :: int) AND 63
   \<and> Flags_str \<lparr>fs = 100\<rparr> = Flags_str \<lparr>fs = 36\<rparr>"
proof -
  have a: "(100 :: int) AND 63 = 36 AND 63" by simp
  have "Flags_str \<lparr>fs = 36\<rparr> = ''deprecated, hidden''"
    using Flags_str_sorted_names [of "\<lparr>fs = 36\<rparr>"]
    by (simp add: names_in_spec_flag_names VALS_def bit_defs flag_names_sorted_def)
  moreover have "Flags_str \<lparr>fs = 100\<rparr> = Flags_str \<lparr>fs = 36\<rparr>"
    using Flags_str_sorted_names [of "\<lparr>fs = 36\<rparr>"] a by simp
  ultimately show ?thesis using a by simp
qed

text \<open>
  C7. Constructing a parameter succeeds when \<open>who\<close> is absent or null, and fails with
  the assertion when \<open>who\<close> holds any other value; the assertion is the only failure of
  the constructor.
\<close>

theorem CmdParam_init_who:
  "((d_who d = None \<or> d_who d = Some JNull) \<longrightarrow> (\<exists>p. CmdParam_init d = Inr p \<and> p_who p = JNull))
   \<and> ((\<exists>v. d_who d = Some v \<and> v \<noteq> JNull) \<longrightarrow> CmdParam_init d = Inl AssertionError)
   \<and> (\<forall>err. CmdParam_init d = Inl err \<longrightarrow>
         err = AssertionError \<and> (\<exists>v. d_who d = Some v \<and> v \<noteq> JNull))"
  by (auto simp: CmdParam_init_def Let_def split: option.splits)

text \<open>\<open>ex_who\<close> carries \<open>who\<close> and is rejected; \<open>ex_format\<close> does not and is built.\<close>

theorem CmdParam_init_who_witness:
  "d_who ex_who = Some (JStr ''osd'') \<and> CmdParam_init ex_who = Inl AssertionError
   \<and> d_who ex_format = None \<and> (\<exists>p. CmdParam_init ex_format = Inr p \<and> p_who p = JNull)"
proof -
  have w: "d_who ex_who = Some (JStr ''osd'')" "d_who ex_format = None"
    by (simp_all add: ex_defs)
  have "CmdParam_init ex_who = Inl AssertionError"
    using CmdParam_init_who [of ex_who] w by simp
  moreover have "\<exists>p. CmdParam_init ex_format = Inr p \<and> p_who p = JNull"
    using CmdParam_init_who [of ex_format] w by simp
  ultimately show ?thesis using w by simp
qed

text \<open>
  C8. The sequence handed to the renderer is the list of surviving commands sorted on
  their literal-token lists. Each command's \<open>sig\<close> is the list of the literal tokens of
  its entry, in order. The signatures of the sequence are ascending in the lexicographic
  order on token lists: they are the sorted list of the signatures of the commands that
  are constructed from the manifest and do not report \<open>'hidden'\<close>. The sequence has
  exactly these commands, each as often as it occurs, and commands with equal signatures
  keep their manifest order. The sequence is a function of the manifest.
\<close>

theorem mk_sigs_sorted_by_sig:
  assumes "mk_sigs all = Inr out"
  shows "\<exists>sigs. list_all2 (\<lambda>e c. CmdCommand_init e = Inr c
            \<and> c_sig c = sig_strs (e_sig e)
            \<and> map SigStr (c_sig c) = filter isinstance_str (e_sig e)) all sigs
      \<and> sorted (map c_sig out)
      \<and> map c_sig out =
          sort (map c_sig (filter (\<lambda>s. \<not> Flags_contains (c_flags s) ''hidden'') sigs))
      \<and> mset out = mset (filter (\<lambda>s. \<not> Flags_contains (c_flags s) ''hidden'') sigs)
      \<and> (\<forall>k. filter (\<lambda>c. c_sig c = k) out =
              filter (\<lambda>c. c_sig c = k)
                (filter (\<lambda>s. \<not> Flags_contains (c_flags s) ''hidden'') sigs))"
proof -
  obtain sigs where sigs: "collect CmdCommand_init all = Inr sigs"
    and out: "out = sort_key c_sig (filter (\<lambda>s. \<not> Flags_contains (c_flags s) ''hidden'') sigs)"
    using assms by (rule mk_sigs_Inr)
  have "list_all2 (\<lambda>e c. CmdCommand_init e = Inr c) all sigs"
    using sigs by (simp add: collect_Inr_iff)
  then have "list_all2 (\<lambda>e c. CmdCommand_init e = Inr c
            \<and> c_sig c = sig_strs (e_sig e)
            \<and> map SigStr (c_sig c) = filter isinstance_str (e_sig e)) all sigs"
    by (rule list_all2_mono) (simp add: CmdCommand_init_sig sig_strs_literal)
  moreover have "sorted (map c_sig out)" by (simp add: out)
  moreover have "map c_sig out =
      sort (map c_sig (filter (\<lambda>s. \<not> Flags_contains (c_flags s) ''hidden'') sigs))"
    unfolding out by (rule map_sort_key_sort)
  moreover have "mset out = mset (filter (\<lambda>s. \<not> Flags_contains (c_flags s) ''hidden'') sigs)"
    by (simp add: out)
  moreover have "filter (\<lambda>c. c_sig c = k) out =
      filter (\<lambda>c. c_sig c = k) (filter (\<lambda>s. \<not> Flags_contains (c_flags s) ''hidden'') sigs)" for k
    unfolding out by (rule sort_key_stable)
  ultimately show ?thesis by blast
qed

text \<open>
  The same manifest lists \<open>osd ls\<close> before \<open>mon compact\<close>; the two surviving commands
  come out as \<open>mon compact\<close>, \<open>osd ls\<close>.
\<close>

theorem mk_sigs_sorted_by_sig_witness:
  "\<exists>out. mk_sigs [ex_hidden, ex_osd, ex_mon] = Inr out
     \<and> map (\<lambda>e. sig_strs (e_sig e)) [ex_hidden, ex_osd, ex_mon] =
         [[''a'', ''secret''], [''osd'', ''ls''], [''mon'', ''compact'']]
     \<and> map c_sig out = [[''mon'', ''compact''], [''osd'', ''ls'']]
     \<and> sorted (map c_sig out) \<and> size (mset out) = 2"
proof -
  obtain out where o: "mk_sigs [ex_hidden, ex_osd, ex_mon] = Inr out"
    and s: "map c_sig out = [[''mon'', ''compact''], [''osd'', ''ls'']]"
    using ex_mk_sigs by (elim exE conjE)
  have "length (map c_sig out) = 2" by (simp add: s)
  then have "size (mset out) = 2" by simp
  moreover have "sorted (map c_sig out)"
    using mk_sigs_sorted_by_sig [OF o] by auto
  ultimately show ?thesis using o s ex_tokens by auto
qed

text \<open>
  C9. A constructed parameter is optional exactly when the descriptor's \<open>req\<close> is the
  string \<open>false\<close>; an absent \<open>req\<close> and every other value give a required parameter.
\<close>

theorem CmdParam_optional_iff:
  assumes "CmdParam_init d = Inr p"
  shows "(\<not> p_req p) = (d_req d = Some (JStr ''false''))
       \<and> (d_req d = None \<longrightarrow> p_req p)
       \<and> (\<forall>v. d_req d = Some v \<and> v \<noteq> JStr ''false'' \<longrightarrow> p_req p)"
  using CmdParam_init_Inr [OF assms] by auto

text \<open>\<open>ex_count\<close> has \<open>req\<close> equal to \<open>false\<close>; \<open>ex_format\<close> has no \<open>req\<close>.\<close>

theorem CmdParam_optional_iff_witness:
  "\<exists>p q. CmdParam_init ex_count = Inr p \<and> d_req ex_count = Some (JStr ''false'') \<and> \<not> p_req p
     \<and> CmdParam_init ex_format = Inr q \<and> d_req ex_format = None \<and> p_req q"
proof -
  obtain p q where p: "CmdParam_init ex_count = Inr p" and q: "CmdParam_init ex_format = Inr q"
    by (simp add: ex_params)
  have r: "d_req ex_count = Some (JStr ''false'')" "d_req ex_format = None"
    by (simp_all add: ex_defs)
  have "\<not> p_req p" using CmdParam_optional_iff [OF p] r by simp
  moreover have "p_req q" using CmdParam_optional_iff [OF q] r by simp
  ultimately show ?thesis using p q r by auto
qed

text \<open>
  C10. For every mask and each of the six names of \<open>VALS\<close>, the substring test of
  \<open>__contains__\<close> on the rendered text gives the same answer as exact membership in the
  set of names whose bit is contained in the mask.
\<close>

theorem Flags_contains_is_membership:
  assumes "name \<in> snd ` set VALS"
  shows "Flags_contains f name = spec_flag_member (fs f) name
       \<and> Flags_contains f name = (\<exists>k. (k, name) \<in> set VALS \<and> fs f AND k = k)
       \<and> snd ` set VALS =
           {''no_forward'', ''obsolete'', ''deprecated'', ''mgr'', ''poll'', ''hidden''}"
proof -
  have "name \<in> set flag_names_sorted" using assms by (simp add: set_flag_names_sorted)
  then have "Flags_contains f name = spec_flag_member (fs f) name"
    by (rule Flags_contains_exact)
  moreover have "snd ` set VALS =
      {''no_forward'', ''obsolete'', ''deprecated'', ''mgr'', ''poll'', ''hidden''}"
    by (simp add: VALS_def)
  ultimately show ?thesis by (simp add: spec_flag_member_ex)
qed

text \<open>The mask 36 has the hidden bit and not the manager bit.\<close>

theorem Flags_contains_is_membership_witness:
  "''hidden'' \<in> snd ` set VALS \<and> ''mgr'' \<in> snd ` set VALS
   \<and> Flags_contains \<lparr>fs = 36\<rparr> ''hidden'' \<and> \<not> Flags_contains \<lparr>fs = 36\<rparr> ''mgr''"
proof -
  have h: "''hidden'' \<in> snd ` set VALS" and m: "''mgr'' \<in> snd ` set VALS"
    by (simp_all add: VALS_def)
  have "Flags_contains \<lparr>fs = 36\<rparr> ''hidden''"
    using Flags_contains_is_membership [OF h, of "\<lparr>fs = 36\<rparr>"]
    by (simp add: spec_flag_member_iff VALS_def bit_defs)
  moreover have "\<not> Flags_contains \<lparr>fs = 36\<rparr> ''mgr''"
    using Flags_contains_is_membership [OF m, of "\<lparr>fs = 36\<rparr>"]
    by (simp add: spec_flag_member_iff VALS_def bit_defs)
  ultimately show ?thesis using h m by simp
qed

end
